theory Spec2Isabelle
  imports Complex_Main
begin

section \<open>Multiple-gust far-field directivity driver (TestScript2\_MultGustsPlots.py)\<close>

text \<open>
  The script is modelled over exact real and complex numbers: a Python float and a
  numpy float64 are a \<open>real\<close>, a complex128 is a \<open>complex\<close>, a one-dimensional
  array is a list and a two-dimensional array is the list of its rows.  Rounding of the
  machine arithmetic is outside the model.  The functions of the \<open>amiet_tools\<close>
  package that the script calls are parameters of the model.
\<close>

type_synonym cvec = "complex list"
type_synonym cmat = "complex list list"

subsection \<open>Errors raised by the interpreter and by numpy\<close>

datatype py_error = ZeroDivisionError | ValueError | IndexError

subsection \<open>Array operations of numpy used by the script\<close>

text \<open>Lines 31 to 33: \<open>A.conj().T\<close>.\<close>

definition H :: "cmat \<Rightarrow> cmat" where
  "H A = transpose (map (map cnj) A)"

text \<open>\<open>np.outer(u, v)\<close>: the entry in row \<open>i\<close> and column \<open>j\<close> is \<open>u[i] * v[j]\<close>.\<close>

definition outer :: "cvec \<Rightarrow> cvec \<Rightarrow> cmat" where
  "outer u v = map (\<lambda>a. map (\<lambda>b. a * b) v) u"

text \<open>A two-dimensional array times a real scalar.\<close>

definition scale :: "cmat \<Rightarrow> real \<Rightarrow> cmat" where
  "scale A c = map (map (\<lambda>z. z * complex_of_real c)) A"

text \<open>
  \<open>A @ B\<close> for two-dimensional arrays of matching shapes: every row of \<open>A\<close> against
  every column of \<open>B\<close>.  The shapes are checked where the product is used.
\<close>

definition matmul :: "cmat \<Rightarrow> cmat \<Rightarrow> cmat" where
  "matmul A B = map (\<lambda>r. map (\<lambda>c. sum_list (map2 (*) r c)) (transpose B)) A"

text \<open>\<open>np.diag(A)\<close> of a square two-dimensional array.\<close>

definition diag :: "cmat \<Rightarrow> cvec" where
  "diag A = map (\<lambda>i. A ! i ! i) [0..<length A]"

text \<open>An array of shape \<open>(m, n)\<close>.\<close>

definition is_mat :: "nat \<Rightarrow> nat \<Rightarrow> cmat \<Rightarrow> bool" where
  "is_mat m n A \<longleftrightarrow> length A = m \<and> list_all (\<lambda>r. length r = n) A"

text \<open>\<open>np.sqrt\<close> of a float64: \<open>None\<close> stands for the \<open>nan\<close> of a negative argument.\<close>

definition np_sqrt :: "real \<Rightarrow> real option" where
  "np_sqrt x = (if x < 0 then None else Some (sqrt x))"

text \<open>
  \<open>np.linspace(start, stop, num)\<close>: \<open>num\<close> evenly spaced samples over the closed
  interval from \<open>start\<close> to \<open>stop\<close>; a negative \<open>num\<close> raises \<open>ValueError\<close>, and a
  single sample is \<open>start\<close>.
\<close>

definition linspace :: "real \<Rightarrow> real \<Rightarrow> int \<Rightarrow> py_error + real list" where
  "linspace start stop num =
     (if num < 0 then Inl ValueError
      else Inr (map (\<lambda>i. start + real i * ((stop - start) / real_of_int (num - 1)))
                    [0..<nat num]))"

text \<open>
  In-place addition \<open>acc += t\<close> of a real array to a complex array of one dimension:
  the shapes have to be equal, or \<open>t\<close> has a single entry that is broadcast.
\<close>

definition iadd :: "cvec \<Rightarrow> real list \<Rightarrow> py_error + cvec" where
  "iadd acc t =
     (if length t = length acc then Inr (map2 (\<lambda>s x. s + complex_of_real x) acc t)
      else if length t = 1 then Inr (map (\<lambda>s. s + complex_of_real (t ! 0)) acc)
      else Inl ValueError)"

text \<open>
  The maximum of a complex array: numpy orders complex numbers by real part, then by
  imaginary part; an empty array raises \<open>ValueError\<close>.
\<close>

definition cmax :: "complex \<Rightarrow> complex \<Rightarrow> complex" where
  "cmax x y = (if Re x < Re y \<or> (Re x = Re y \<and> Im x < Im y) then y else x)"

definition amax :: "cvec \<Rightarrow> py_error + complex" where
  "amax xs = (case xs of [] \<Rightarrow> Inl ValueError | x # rest \<Rightarrow> Inr (foldl cmax x rest))"

subsection \<open>Aeroacoustic characteristics (lines 42 to 81)\<close>

definition b :: real where "b = 0.075"
definition d :: real where "d = 0.225"
definition Ux :: real where "Ux = 60"

definition turb_intensity :: real where "turb_intensity = 0.025"
definition length_scale :: real where "length_scale = 0.007"
definition u_mean2 :: real where "u_mean2 = (Ux * turb_intensity)\<^sup>2"

definition c0 :: real where "c0 = 340"
definition rho0 :: real where "rho0 = 1.2"
definition kc :: real where "kc = 0.5"

definition f0 :: real where
  "f0 = kc * c0 / (2 * pi * (2 * b))"

definition ac_wavelength :: real where "ac_wavelength = c0 / f0"
definition k0 :: real where "k0 = 2 * pi / ac_wavelength"
definition Mach :: real where "Mach = Ux / c0"
definition beta :: real where "beta = sqrt (1 - Mach\<^sup>2)"
definition Kx :: real where "Kx = 2 * pi * f0 / Ux"
definition ky_crit :: real where "ky_crit = Kx * Mach / beta"

definition dipole_axis :: string where "dipole_axis = ''z''"
definition flow_dir :: string where "flow_dir = ''x''"
definition flow_param :: "string \<times> real" where "flow_param = (flow_dir, Mach)"

subsection \<open>Mesh size and far-field arcs (lines 86 to 107)\<close>

definition Nx :: nat where "Nx = 100"
definition Ny :: nat where "Ny = 101"

definition R_farfield :: real where "R_farfield = 50"
definition M_farfield :: nat where "M_farfield = 181"

definition theta_farfield :: "real list" where
  "theta_farfield =
     (case linspace (- pi / 2) (pi / 2) (int M_farfield) of Inr t \<Rightarrow> t | Inl e \<Rightarrow> [])"

definition x_farfield :: "real list" where
  "x_farfield = map (\<lambda>t. R_farfield * sin t) theta_farfield"

definition z_farfield :: "real list" where
  "z_farfield = map (\<lambda>t. - R_farfield * cos t) theta_farfield"

definition XZ_farfield :: "real list list" where
  "XZ_farfield = [x_farfield, replicate (length x_farfield) 0, z_farfield]"

definition YZ_farfield :: "real list list" where
  "YZ_farfield = [replicate (length x_farfield) 0, x_farfield, z_farfield]"

subsection \<open>The functions and arrays supplied by \<open>amiet_tools\<close>\<close>

text \<open>
  \<^item> \<open>Phi_2D Kx Ky u_mean2 length_scale\<close> is \<open>AmT.Phi_2D(Kx, Ky, u_mean2, length_scale,
    model='K')[0]\<close>.
  \<^item> \<open>delta_p1_dx w0 ky\<close> is the array \<open>delta_p1*dx\<close> in row-major order, for the gust
    of amplitude \<open>w0\<close> and spanwise wavenumber \<open>ky\<close>: the pressure jump
    \<open>AmT.delta_p(rho0, b, w0, Ux, Kx, ky, XYZ_airfoil[0:2], Mach)\<close> weighted by the
    chordwise mesh spacing \<open>dx\<close> of \<open>AmT.create_airf_mesh\<close>.
  \<^item> \<open>dy\<close> is the spanwise mesh spacing and \<open>XYZ_airfoil_calc\<close> the reshaped mesh of
    \<open>AmT.create_airf_mesh(b, d, Nx, Ny)\<close>.
  \<^item> \<open>dipole3D\<close> is \<open>AmT.dipole3D\<close>, a function of its five arguments.
\<close>

record externals =
  Phi_2D :: "real \<Rightarrow> real list \<Rightarrow> real \<Rightarrow> real \<Rightarrow> real list"
  delta_p1_dx :: "real option \<Rightarrow> real \<Rightarrow> cvec"
  dy :: real
  XYZ_airfoil_calc :: "real list list"
  dipole3D :: "real list list \<Rightarrow> real list list \<Rightarrow> real \<Rightarrow> string \<Rightarrow> string \<times> real \<Rightarrow> cmat"

subsection \<open>Wavenumber sampler (lines 111 to 131)\<close>

text \<open>
  Lines 111 to 124, as a function of the half span and of the critical wavenumber; the
  result is the pair \<open>(N_ky, Ky)\<close>.  Dividing the Python float \<open>2*np.pi\<close> by a zero
  half span raises \<open>ZeroDivisionError\<close>.  \<open>np.int\<close> is the integer type of Python,
  so that \<open>np.int(np.ceil(x))\<close> is the ceiling of \<open>x\<close> as an integer.
\<close>

definition wavenumber_grid :: "real \<Rightarrow> real \<Rightarrow> py_error + (int \<times> real list)" where
  "wavenumber_grid hs kyc =
     (if hs = 0 then Inl ZeroDivisionError
      else
        let ky_T = 2 * pi / hs in
        if kyc < 2 * pi / hs then
          (let N_ky = 41 in
           case linspace (- ky_T) ky_T N_ky of
             Inl e \<Rightarrow> Inl e
           | Inr Ky \<Rightarrow> Inr (N_ky, Ky))
        else
          (let N_T = 2 * kyc / ky_T;
               N_ky = \<lceil>N_T * 20\<rceil> + 1 in
           case linspace (- kyc) kyc N_ky of
             Inl e \<Rightarrow> Inl e
           | Inr Ky \<Rightarrow> Inr (N_ky, Ky)))"

text \<open>Line 131, \<open>dky = Ky[1]-Ky[0]\<close>: an index past the end raises \<open>IndexError\<close>.\<close>

definition bin_width :: "real list \<Rightarrow> py_error + real" where
  "bin_width Ky = (if length Ky < 2 then Inl IndexError else Inr (Ky ! 1 - Ky ! 0))"

subsection \<open>Spectral integration over the gusts (lines 134 to 162)\<close>

text \<open>The arrays that the loop assigns: \<open>Sqq\<close> and the two accumulators.\<close>

record state =
  Sqq :: cmat
  Spp_Xdir :: cvec
  Spp_Ydir :: cvec

text \<open>Lines 134 to 137, for a mesh of \<open>N\<close> points and arcs of \<open>M\<close> observers.\<close>

definition init_state :: "nat \<Rightarrow> nat \<Rightarrow> state" where
  "init_state N M =
     \<lparr>Sqq = replicate N (replicate N 0),
      Spp_Xdir = replicate M 0,
      Spp_Ydir = replicate M 0\<rparr>"

text \<open>Line 153: the covariance matrix of one gust.\<close>

definition gust_Sqq :: "cvec \<Rightarrow> real \<Rightarrow> cmat" where
  "gust_Sqq delta_p1_calc dky =
     scale (scale (outer delta_p1_calc (map cnj delta_p1_calc)) Ux) dky"

text \<open>
  Lines 158 and 162: \<open>Spp += np.real(np.diag(G @ Sqq @ H(G)))*4*np.pi\<close>, where \<open>Sqq\<close>
  has shape \<open>(N, N)\<close>.  The product raises \<open>ValueError\<close> unless \<open>G\<close> has \<open>N\<close>
  columns.
\<close>

definition accumulate :: "nat \<Rightarrow> cmat \<Rightarrow> cmat \<Rightarrow> cvec \<Rightarrow> py_error + cvec" where
  "accumulate N G S Spp =
     (if \<not> list_all (\<lambda>r. length r = N) G then Inl ValueError
      else iadd Spp (map (\<lambda>x. x * 4 * pi) (map Re (diag (matmul (matmul G S) (H G))))))"

text \<open>
  Lines 151 to 162 for one gust, given the array \<open>v = delta_p1*dx\<close> and the two
  matrices of Green's functions.  \<open>reshape(Nx*Ny)\<close> raises \<open>ValueError\<close> unless \<open>v\<close>
  has \<open>N\<close> entries.
\<close>

definition gust_update :: "nat \<Rightarrow> real \<Rightarrow> real \<Rightarrow> cvec \<Rightarrow> cmat \<Rightarrow> cmat \<Rightarrow> state \<Rightarrow> py_error + state" where
  "gust_update N dy' dky v G_Xdir G_Ydir s =
     (if length v \<noteq> N then Inl ValueError
      else
        let delta_p1_calc = map (\<lambda>z. z * complex_of_real dy') v;
            S = gust_Sqq delta_p1_calc dky in
        case accumulate N G_Xdir S (Spp_Xdir s) of
          Inl e \<Rightarrow> Inl e
        | Inr X \<Rightarrow>
            (case accumulate N G_Ydir S (Spp_Ydir s) of
               Inl e \<Rightarrow> Inl e
             | Inr Y \<Rightarrow> Inr \<lparr>Sqq = S, Spp_Xdir = X, Spp_Ydir = Y\<rparr>))"

text \<open>
  The body of the loop, lines 144 to 162, for the gust of index \<open>kyi\<close>: both matrices
  of Green's functions are computed anew by \<open>dipole3D\<close>.
\<close>

definition gust_body :: "externals \<Rightarrow> nat \<Rightarrow> real \<Rightarrow> real list \<Rightarrow> real list \<Rightarrow> nat \<Rightarrow> state \<Rightarrow> py_error + state" where
  "gust_body ext N dky Ky Phi2 kyi s =
     (if length Phi2 \<le> kyi \<or> length Ky \<le> kyi then Inl IndexError
      else
        let w0 = np_sqrt (Phi2 ! kyi);
            v = delta_p1_dx ext w0 (Ky ! kyi);
            G_Xdir = dipole3D ext (XYZ_airfoil_calc ext) XZ_farfield k0 dipole_axis flow_param;
            G_Ydir = dipole3D ext (XYZ_airfoil_calc ext) YZ_farfield k0 dipole_axis flow_param
        in gust_update N (dy ext) dky v G_Xdir G_Ydir s)"

text \<open>The loop of line 141 over a list of gust indices; an exception ends it.\<close>

fun gust_loop :: "externals \<Rightarrow> nat \<Rightarrow> real \<Rightarrow> real list \<Rightarrow> real list \<Rightarrow> nat list \<Rightarrow> state \<Rightarrow> py_error + state" where
  "gust_loop ext N dky Ky Phi2 [] s = Inr s"
| "gust_loop ext N dky Ky Phi2 (kyi # rest) s =
     (case gust_body ext N dky Ky Phi2 kyi s of
        Inl e \<Rightarrow> Inl e
      | Inr s' \<Rightarrow> gust_loop ext N dky Ky Phi2 rest s')"

text \<open>
  Lines 111 to 162 for a mesh of \<open>N\<close> points, arcs of \<open>M\<close> observers, half span \<open>hs\<close>
  and critical wavenumber \<open>kyc\<close>.
\<close>

definition multiple_gusts :: "externals \<Rightarrow> nat \<Rightarrow> nat \<Rightarrow> real \<Rightarrow> real \<Rightarrow> py_error + state" where
  "multiple_gusts ext N M hs kyc =
     (case wavenumber_grid hs kyc of
        Inl e \<Rightarrow> Inl e
      | Inr (N_ky, Ky) \<Rightarrow>
          (case bin_width Ky of
             Inl e \<Rightarrow> Inl e
           | Inr dky \<Rightarrow>
               let Phi2 = Phi_2D ext Kx Ky u_mean2 length_scale
               in gust_loop ext N dky Ky Phi2 [0..<length Ky] (init_state N M)))"

text \<open>The script itself.\<close>

definition script :: "externals \<Rightarrow> py_error + state" where
  "script ext = multiple_gusts ext (Nx * Ny) M_farfield d ky_crit"

subsection \<open>The same integration with the Green's functions computed once\<close>

text \<open>
  The variant that the specification proposes: both matrices are computed before the
  loop and the body of the loop reads them.
\<close>

fun gust_loop_cached :: "externals \<Rightarrow> nat \<Rightarrow> real \<Rightarrow> real list \<Rightarrow> real list \<Rightarrow> cmat \<Rightarrow> cmat \<Rightarrow> nat list \<Rightarrow> state \<Rightarrow> py_error + state" where
  "gust_loop_cached ext N dky Ky Phi2 G_Xdir G_Ydir [] s = Inr s"
| "gust_loop_cached ext N dky Ky Phi2 G_Xdir G_Ydir (kyi # rest) s =
     (if length Phi2 \<le> kyi \<or> length Ky \<le> kyi then Inl IndexError
      else
        let w0 = np_sqrt (Phi2 ! kyi);
            v = delta_p1_dx ext w0 (Ky ! kyi)
        in case gust_update N (dy ext) dky v G_Xdir G_Ydir s of
             Inl e \<Rightarrow> Inl e
           | Inr s' \<Rightarrow> gust_loop_cached ext N dky Ky Phi2 G_Xdir G_Ydir rest s')"

definition multiple_gusts_cached :: "externals \<Rightarrow> nat \<Rightarrow> nat \<Rightarrow> real \<Rightarrow> real \<Rightarrow> py_error + state" where
  "multiple_gusts_cached ext N M hs kyc =
     (case wavenumber_grid hs kyc of
        Inl e \<Rightarrow> Inl e
      | Inr (N_ky, Ky) \<Rightarrow>
          (case bin_width Ky of
             Inl e \<Rightarrow> Inl e
           | Inr dky \<Rightarrow>
               let Phi2 = Phi_2D ext Kx Ky u_mean2 length_scale;
                   G_Xdir = dipole3D ext (XYZ_airfoil_calc ext) XZ_farfield k0 dipole_axis flow_param;
                   G_Ydir = dipole3D ext (XYZ_airfoil_calc ext) YZ_farfield k0 dipole_axis flow_param
               in gust_loop_cached ext N dky Ky Phi2 G_Xdir G_Ydir [0..<length Ky]
                    (init_state N M)))"

subsection \<open>Normalisation for the plots (lines 168 to 173)\<close>

definition normalise :: "cvec \<Rightarrow> cvec \<Rightarrow> py_error + (cvec \<times> cvec)" where
  "normalise X Y =
     (case amax X of
        Inl e \<Rightarrow> Inl e
      | Inr mx \<Rightarrow>
          (case amax Y of
             Inl e \<Rightarrow> Inl e
           | Inr my \<Rightarrow>
               let Spp_max = cmax mx my;
                   Spp_max = complex_of_real (4.296 / 10 ^ 8);
                   Spp_Xnorm = map (\<lambda>z. z / Spp_max) X;
                   Spp_Ynorm = map (\<lambda>z. z / Spp_max) Y
               in Inr (Spp_Xnorm, Spp_Ynorm)))"

subsection \<open>Properties of arrays used in the statements\<close>

text \<open>Every entry has a zero imaginary part.\<close>

definition all_real :: "cvec \<Rightarrow> bool" where
  "all_real xs = list_all (\<lambda>z. Im z = 0) xs"

text \<open>Every entry is a non-negative real number.\<close>

definition all_nonneg :: "cvec \<Rightarrow> bool" where
  "all_nonneg xs = list_all (\<lambda>z. Im z = 0 \<and> 0 \<le> Re z) xs"

text \<open>The Hermitian form \<open>x\<^sup>H A x\<close> of a square array \<open>A\<close> at a vector \<open>x\<close>.\<close>

definition quadratic_form :: "cvec \<Rightarrow> cmat \<Rightarrow> complex" where
  "quadratic_form x A = sum_list (map2 (\<lambda>a r. cnj a * sum_list (map2 (*) r x)) x A)"

section \<open>The wavenumber sampler\<close>

subsection \<open>Evenly spaced samples\<close>

lemma linspace_Inr:
  "0 \<le> num \<Longrightarrow> linspace lo hi num =
     Inr (map (\<lambda>i. lo + real i * ((hi - lo) / real_of_int (num - 1))) [0..<nat num])"
  by (simp add: linspace_def)

lemma linspace_length: "linspace lo hi num = Inr Ky \<Longrightarrow> length Ky = nat num"
  by (auto simp: linspace_def split: if_splits)

lemma linspace_nth:
  "linspace lo hi num = Inr Ky \<Longrightarrow> i < nat num \<Longrightarrow>
     Ky ! i = lo + real i * ((hi - lo) / real_of_int (num - 1))"
  by (auto simp: linspace_def split: if_splits)

lemma linspace_first: "linspace lo hi num = Inr Ky \<Longrightarrow> 1 \<le> num \<Longrightarrow> Ky ! 0 = lo"
  by (simp add: linspace_nth)

lemma linspace_last:
  assumes "linspace lo hi num = Inr Ky" and "2 \<le> num"
  shows "Ky ! (nat num - 1) = hi"
proof -
  have "real (nat num - 1) = real_of_int (num - 1)"
    using assms(2) by (simp add: of_nat_diff)
  moreover have "real_of_int (num - 1) \<noteq> 0" using assms(2) by simp
  ultimately show ?thesis
    using assms linspace_nth [OF assms(1), of "nat num - 1"] by simp
qed

lemma linspace_step:
  assumes "linspace lo hi num = Inr Ky" and "Suc i < nat num"
  shows "Ky ! Suc i - Ky ! i = (hi - lo) / real_of_int (num - 1)"
proof -
  have "Ky ! Suc i - Ky ! i =
      (real (Suc i) - real i) * ((hi - lo) / real_of_int (num - 1))"
    using assms linspace_nth [OF assms(1), of i] linspace_nth [OF assms(1), of "Suc i"]
    unfolding left_diff_distrib by simp
  then show ?thesis by simp
qed

lemma last_nth: "length xs = n \<Longrightarrow> 0 < n \<Longrightarrow> last xs = xs ! (n - 1)"
  by (cases xs) (auto simp: last_conv_nth)

subsection \<open>The two regimes\<close>

lemma periods_ceiling:
  fixes T k :: real
  assumes "0 < T" and "T \<le> k"
  shows "40 \<le> \<lceil>2 * k / T * 20\<rceil>" and "40 * k / T \<le> real_of_int \<lceil>2 * k / T * 20\<rceil>"
proof -
  have "1 \<le> k / T" using assms by (simp add: pos_le_divide_eq)
  then have "40 \<le> 2 * k / T * 20" by simp
  then have "\<lceil>40::real\<rceil> \<le> \<lceil>2 * k / T * 20\<rceil>" by (rule ceiling_mono)
  then show "40 \<le> \<lceil>2 * k / T * 20\<rceil>" by simp
  have "2 * k / T * 20 \<le> real_of_int \<lceil>2 * k / T * 20\<rceil>" by (rule le_of_int_ceiling)
  then show "40 * k / T \<le> real_of_int \<lceil>2 * k / T * 20\<rceil>" by simp
qed

lemma grid_low:
  assumes "hs \<noteq> 0" and "kyc < 2 * pi / hs"
  shows "wavenumber_grid hs kyc =
     (case linspace (- (2 * pi / hs)) (2 * pi / hs) 41 of
        Inl e \<Rightarrow> Inl e | Inr Ky \<Rightarrow> Inr (41, Ky))"
  using assms by (simp add: wavenumber_grid_def Let_def)

lemma grid_high:
  assumes "hs \<noteq> 0" and "\<not> kyc < 2 * pi / hs"
  shows "wavenumber_grid hs kyc =
     (case linspace (- kyc) kyc (\<lceil>2 * kyc / (2 * pi / hs) * 20\<rceil> + 1) of
        Inl e \<Rightarrow> Inl e
      | Inr Ky \<Rightarrow> Inr (\<lceil>2 * kyc / (2 * pi / hs) * 20\<rceil> + 1, Ky))"
  by (simp only: wavenumber_grid_def Let_def if_not_P [OF assms(1)] if_not_P [OF assms(2)])

lemma grid_low_ex:
  assumes "hs \<noteq> 0" and "kyc < 2 * pi / hs"
  shows "\<exists>Ky. wavenumber_grid hs kyc = Inr (41, Ky) \<and>
           linspace (- (2 * pi / hs)) (2 * pi / hs) 41 = Inr Ky"
  using grid_low [OF assms] by (simp add: linspace_def)

lemma grid_high_ex:
  assumes "0 < hs" and "\<not> kyc < 2 * pi / hs"
  shows "\<exists>Ky. wavenumber_grid hs kyc = Inr (\<lceil>2 * kyc / (2 * pi / hs) * 20\<rceil> + 1, Ky) \<and>
           linspace (- kyc) kyc (\<lceil>2 * kyc / (2 * pi / hs) * 20\<rceil> + 1) = Inr Ky \<and>
           41 \<le> \<lceil>2 * kyc / (2 * pi / hs) * 20\<rceil> + 1 \<and> 0 < kyc"
proof -
  define N where "N = \<lceil>2 * kyc / (2 * pi / hs) * 20\<rceil> + 1"
  have T: "0 < 2 * pi / hs" using assms(1) by simp
  have kT: "2 * pi / hs \<le> kyc" using assms(2) by simp
  have N41: "41 \<le> N"
    using periods_ceiling(1) [OF T kT] by (simp add: N_def)
  have k: "0 < kyc" using T kT by linarith
  have "0 \<le> N" using N41 by simp
  from linspace_Inr [OF this] obtain Ky where Ky: "linspace (- kyc) kyc N = Inr Ky"
    by blast
  have "hs \<noteq> 0" using assms(1) by simp
  from grid_high [OF this assms(2)] have "wavenumber_grid hs kyc = Inr (N, Ky)"
    unfolding N_def [symmetric] Ky by simp
  with Ky N41 k show ?thesis unfolding N_def by blast
qed

text \<open>
  Both regimes at once: the grid is a \<open>linspace\<close> of at least 41 points over a
  symmetric interval of positive half width.
\<close>

lemma grid_cases:
  assumes "0 < hs"
  shows "\<exists>N_ky Ky w. wavenumber_grid hs kyc = Inr (N_ky, Ky) \<and>
           linspace (- w) w N_ky = Inr Ky \<and> 41 \<le> N_ky \<and> 0 < w \<and>
           w = (if kyc < 2 * pi / hs then 2 * pi / hs else kyc)"
proof (cases "kyc < 2 * pi / hs")
  case True
  have "hs \<noteq> 0" using assms by simp
  from grid_low_ex [OF this True] assms True show ?thesis by auto
next
  case False
  from grid_high_ex [OF assms False] False show ?thesis by auto
qed

lemma grid_bin_width:
  assumes Ky: "linspace (- w) w N_ky = Inr Ky" and N: "41 \<le> N_ky" and w: "0 < w"
  shows "bin_width Ky = Inr (Ky ! 1 - Ky ! 0)" and "Ky ! 1 - Ky ! 0 = 2 * w / real_of_int (N_ky - 1)"
    and "0 < Ky ! 1 - Ky ! 0" and "length Ky = nat N_ky" and "Ky ! 0 = - w" and "last Ky = w"
proof -
  show len: "length Ky = nat N_ky" by (rule linspace_length [OF Ky])
  then show "bin_width Ky = Inr (Ky ! 1 - Ky ! 0)" using N by (simp add: bin_width_def)
  have "Ky ! Suc 0 - Ky ! 0 = (w - - w) / real_of_int (N_ky - 1)"
    using N by (intro linspace_step [OF Ky]) simp
  then show step: "Ky ! 1 - Ky ! 0 = 2 * w / real_of_int (N_ky - 1)" by simp
  have "0 < real_of_int (N_ky - 1)" using N by simp
  then show "0 < Ky ! 1 - Ky ! 0" unfolding step using w by simp
  show "Ky ! 0 = - w" using linspace_first [OF Ky] N by simp
  have "Ky ! (nat N_ky - 1) = w" using linspace_last [OF Ky] N by simp
  then show "last Ky = w" using last_nth [OF len] N by simp
qed

text \<open>
  Claim C3.  For a positive half span, a critical wavenumber below the periodicity
  wavenumber \<open>ky_T = 2 pi / hs\<close> gives exactly 41 uniformly spaced points from
  \<open>- ky_T\<close> to \<open>ky_T\<close>.  Otherwise the grid has
  \<open>ceil((2 kyc / ky_T) 20) + 1\<close> uniformly spaced points from \<open>- kyc\<close> to \<open>kyc\<close>,
  both endpoints included, and the spacing is at most \<open>ky_T / 20\<close>.
\<close>

theorem wavenumber_grid_regimes:
  assumes "0 < hs"
  shows "(kyc < 2 * pi / hs \<longrightarrow>
           (\<exists>Ky. wavenumber_grid hs kyc = Inr (41, Ky) \<and> length Ky = 41 \<and>
                 Ky ! 0 = - (2 * pi / hs) \<and> last Ky = 2 * pi / hs \<and>
                 (\<forall>i. Suc i < length Ky \<longrightarrow> Ky ! Suc i - Ky ! i = (2 * pi / hs) / 20))) \<and>
         (\<not> kyc < 2 * pi / hs \<longrightarrow>
           (\<exists>Ky dk. wavenumber_grid hs kyc =
                      Inr (\<lceil>2 * kyc / (2 * pi / hs) * 20\<rceil> + 1, Ky) \<and>
                 length Ky = nat (\<lceil>2 * kyc / (2 * pi / hs) * 20\<rceil> + 1) \<and>
                 2 \<le> length Ky \<and>
                 Ky ! 0 = - kyc \<and> last Ky = kyc \<and>
                 (\<forall>i. Suc i < length Ky \<longrightarrow> Ky ! Suc i - Ky ! i = dk) \<and>
                 dk \<le> (2 * pi / hs) / 20))"
proof (intro conjI impI)
  assume low: "kyc < 2 * pi / hs"
  define T where "T = 2 * pi / hs"
  obtain Ky where Ky: "linspace (- T) T 41 = Inr Ky"
    by (simp add: linspace_def)
  have len: "length Ky = 41" using linspace_length [OF Ky] by simp
  have g: "wavenumber_grid hs kyc = Inr (41, Ky)"
    using grid_low [of hs kyc] assms low Ky by (simp add: T_def)
  have first: "Ky ! 0 = - T" using linspace_first [OF Ky] by simp
  have "Ky ! (nat 41 - 1) = T" by (rule linspace_last [OF Ky]) simp
  then have lst: "last Ky = T" using last_nth [OF len] by simp
  have step: "\<forall>i. Suc i < length Ky \<longrightarrow> Ky ! Suc i - Ky ! i = T / 20"
    using linspace_step [OF Ky] len by simp
  show "\<exists>Ky. wavenumber_grid hs kyc = Inr (41, Ky) \<and> length Ky = 41 \<and>
                 Ky ! 0 = - (2 * pi / hs) \<and> last Ky = 2 * pi / hs \<and>
                 (\<forall>i. Suc i < length Ky \<longrightarrow> Ky ! Suc i - Ky ! i = (2 * pi / hs) / 20)"
    using g len first lst step unfolding T_def by blast
next
  assume high: "\<not> kyc < 2 * pi / hs"
  define T where "T = 2 * pi / hs"
  define N where "N = \<lceil>2 * kyc / T * 20\<rceil> + 1"
  have T: "0 < T" using assms by (simp add: T_def)
  have kT: "T \<le> kyc" using high by (simp add: T_def)
  have k: "0 < kyc" using T kT by simp
  have N41: "41 \<le> N" using periods_ceiling(1) [OF T kT] by (simp add: N_def)
  obtain Ky where Ky: "linspace (- kyc) kyc N = Inr Ky"
    using N41 by (simp add: linspace_def)
  have len: "length Ky = nat N" by (rule linspace_length [OF Ky])
  have g: "wavenumber_grid hs kyc = Inr (N, Ky)"
    using grid_high [of hs kyc] assms high Ky by (simp add: T_def N_def)
  have first: "Ky ! 0 = - kyc" using linspace_first [OF Ky] N41 by simp
  have "Ky ! (nat N - 1) = kyc" using linspace_last [OF Ky] N41 by simp
  then have lst: "last Ky = kyc" using last_nth [OF len] N41 by simp
  define dk where "dk = (kyc - - kyc) / real_of_int (N - 1)"
  have step: "\<forall>i. Suc i < length Ky \<longrightarrow> Ky ! Suc i - Ky ! i = dk"
    using linspace_step [OF Ky] len by (simp add: dk_def)
  have c: "40 * kyc / T \<le> real_of_int (N - 1)"
    using periods_ceiling(2) [OF T kT] by (simp add: N_def)
  have pos: "0 < 40 * kyc / T" using T k by simp
  have "dk = 2 * kyc / real_of_int (N - 1)" by (simp add: dk_def)
  also have "\<dots> \<le> 2 * kyc / (40 * kyc / T)"
  proof (rule divide_left_mono [OF c])
    show "0 \<le> 2 * kyc" using k by simp
    have "0 < real_of_int (N - 1)" using c pos by linarith
    then show "0 < real_of_int (N - 1) * (40 * kyc / T)"
      using pos by (rule mult_pos_pos)
  qed
  also have "\<dots> = T / 20" using k by simp
  finally have bound: "dk \<le> T / 20" .
  have "2 \<le> length Ky" using len N41 by simp
  then show "\<exists>Ky dk. wavenumber_grid hs kyc =
                      Inr (\<lceil>2 * kyc / (2 * pi / hs) * 20\<rceil> + 1, Ky) \<and>
                 length Ky = nat (\<lceil>2 * kyc / (2 * pi / hs) * 20\<rceil> + 1) \<and>
                 2 \<le> length Ky \<and>
                 Ky ! 0 = - kyc \<and> last Ky = kyc \<and>
                 (\<forall>i. Suc i < length Ky \<longrightarrow> Ky ! Suc i - Ky ! i = dk) \<and>
                 dk \<le> (2 * pi / hs) / 20"
    using g len first lst step bound unfolding T_def N_def by blast
qed

theorem wavenumber_grid_regimes_witness:
  "(\<exists>Ky. wavenumber_grid d 0 = Inr (41, Ky) \<and> length Ky = 41 \<and>
         Ky ! 0 = - (2 * pi / d) \<and> last Ky = 2 * pi / d \<and>
         (\<forall>i. Suc i < length Ky \<longrightarrow> Ky ! Suc i - Ky ! i = (2 * pi / d) / 20)) \<and>
   (\<exists>Ky dk. wavenumber_grid 1 (4 * pi) = Inr (81, Ky) \<and> length Ky = 81 \<and>
         2 \<le> length Ky \<and> Ky ! 0 = - (4 * pi) \<and> last Ky = 4 * pi \<and>
         (\<forall>i. Suc i < length Ky \<longrightarrow> Ky ! Suc i - Ky ! i = dk) \<and>
         dk \<le> (2 * pi / 1) / 20)"
proof -
  have d: "0 < d" by (simp add: d_def)
  have low: "(0::real) < 2 * pi / d" using d by simp
  have one: "(0::real) < 1" by simp
  have high: "\<not> 4 * pi < 2 * pi / 1" by simp
  have n: "\<lceil>2 * (4 * pi) / (2 * pi / 1) * 20\<rceil> + 1 = 81" by simp
  from wavenumber_grid_regimes [OF d, of 0] low
  have A: "\<exists>Ky. wavenumber_grid d 0 = Inr (41, Ky) \<and> length Ky = 41 \<and>
         Ky ! 0 = - (2 * pi / d) \<and> last Ky = 2 * pi / d \<and>
         (\<forall>i. Suc i < length Ky \<longrightarrow> Ky ! Suc i - Ky ! i = (2 * pi / d) / 20)"
    by blast
  from wavenumber_grid_regimes [OF one, of "4 * pi"] high
  have "\<exists>Ky dk. wavenumber_grid 1 (4 * pi) =
                      Inr (\<lceil>2 * (4 * pi) / (2 * pi / 1) * 20\<rceil> + 1, Ky) \<and>
                 length Ky = nat (\<lceil>2 * (4 * pi) / (2 * pi / 1) * 20\<rceil> + 1) \<and>
                 2 \<le> length Ky \<and>
                 Ky ! 0 = - (4 * pi) \<and> last Ky = 4 * pi \<and>
                 (\<forall>i. Suc i < length Ky \<longrightarrow> Ky ! Suc i - Ky ! i = dk) \<and>
                 dk \<le> (2 * pi / 1) / 20"
    by blast
  then have B: "\<exists>Ky dk. wavenumber_grid 1 (4 * pi) = Inr (81, Ky) \<and> length Ky = 81 \<and>
         2 \<le> length Ky \<and> Ky ! 0 = - (4 * pi) \<and> last Ky = 4 * pi \<and>
         (\<forall>i. Suc i < length Ky \<longrightarrow> Ky ! Suc i - Ky ! i = dk) \<and>
         dk \<le> (2 * pi / 1) / 20"
    unfolding n by simp
  from A B show ?thesis by (rule conjI)
qed

text \<open>
  Claim C4.  At the boundary \<open>kyc = ky_T\<close> the high-frequency branch is taken with
  \<open>N_T = 2\<close> and \<open>N_ky = 41\<close>; the grid runs from \<open>- ky_T\<close> to \<open>ky_T\<close> and is
  the grid of the low-frequency regime.
\<close>

theorem grid_at_periodicity_boundary:
  assumes "hs \<noteq> 0"
  shows "\<not> 2 * pi / hs < 2 * pi / hs \<and>
         2 * (2 * pi / hs) / (2 * pi / hs) = 2 \<and>
         \<lceil>2 * (2 * pi / hs) / (2 * pi / hs) * 20\<rceil> + 1 = 41 \<and>
         (\<exists>Ky. wavenumber_grid hs (2 * pi / hs) = Inr (41, Ky) \<and> length Ky = 41 \<and>
               Ky ! 0 = - (2 * pi / hs) \<and> last Ky = 2 * pi / hs \<and>
               linspace (- (2 * pi / hs)) (2 * pi / hs) 41 = Inr Ky \<and>
               (\<forall>ky'. ky' < 2 * pi / hs \<longrightarrow> wavenumber_grid hs ky' = Inr (41, Ky)))"
proof -
  define T where "T = 2 * pi / hs"
  have T: "T \<noteq> 0" using assms by (simp add: T_def)
  have two: "2 * T / T = 2" using T by simp
  have n: "\<lceil>2 * T / T * 20\<rceil> + 1 = 41" unfolding two by simp
  obtain Ky where Ky: "linspace (- T) T 41 = Inr Ky" by (simp add: linspace_def)
  have len: "length Ky = 41" using linspace_length [OF Ky] by simp
  have g: "wavenumber_grid hs T = Inr (41, Ky)"
    using grid_high [OF assms, of T] Ky unfolding T_def [symmetric] n by simp
  have first: "Ky ! 0 = - T" using linspace_first [OF Ky] by simp
  have "Ky ! (nat 41 - 1) = T" by (rule linspace_last [OF Ky]) simp
  then have lst: "last Ky = T" using last_nth [OF len] by simp
  have low: "wavenumber_grid hs ky' = Inr (41, Ky)" if "ky' < T" for ky'
    using grid_low [OF assms, of ky'] that Ky unfolding T_def [symmetric] by simp
  show ?thesis
    unfolding T_def [symmetric] using two n g len first lst Ky low by blast
qed

theorem grid_at_periodicity_boundary_witness:
  "d \<noteq> 0 \<and> \<not> 2 * pi / d < 2 * pi / d \<and>
         2 * (2 * pi / d) / (2 * pi / d) = 2 \<and>
         \<lceil>2 * (2 * pi / d) / (2 * pi / d) * 20\<rceil> + 1 = 41 \<and>
         (\<exists>Ky. wavenumber_grid d (2 * pi / d) = Inr (41, Ky) \<and> length Ky = 41 \<and>
               Ky ! 0 = - (2 * pi / d) \<and> last Ky = 2 * pi / d \<and>
               linspace (- (2 * pi / d)) (2 * pi / d) 41 = Inr Ky \<and>
               (\<forall>ky'. ky' < 2 * pi / d \<longrightarrow> wavenumber_grid d ky' = Inr (41, Ky)))"
proof -
  have "d \<noteq> 0" by (simp add: d_def)
  from this grid_at_periodicity_boundary [OF this] show ?thesis by (rule conjI)
qed



section \<open>The spectral integration\<close>

subsection \<open>Entries of transposes and products\<close>

lemma is_mat_row: "is_mat m n A \<Longrightarrow> i < m \<Longrightarrow> length (A ! i) = n"
  by (auto simp: is_mat_def list_all_length)

lemma transpose_mat:
  assumes "is_mat m n A" and "0 < m"
  shows "transpose A = map (\<lambda>j. map (\<lambda>k. A ! k ! j) [0..<m]) [0..<n]"
proof -
  have "transpose A = map (\<lambda>i. map (\<lambda>j. A ! j ! i) [0..<length A]) [0..<n]"
  proof (rule transpose_rectangle)
    show "A = [] \<Longrightarrow> n = 0" using assms by (auto simp: is_mat_def)
    show "\<And>i. i < length A \<Longrightarrow> length (A ! i) = n"
      using assms by (auto simp: is_mat_def list_all_length)
  qed
  then show ?thesis using assms by (simp add: is_mat_def)
qed




lemma matmul_length: "length (matmul A B) = length A"
  by (simp add: matmul_def)

lemma diag_length: "length (diag A) = length A"
  by (simp add: diag_def)

lemma H_is_mat:
  assumes "is_mat m n A" and "0 < m"
  shows "is_mat n m (H A)"
proof -
  have "is_mat m n (map (map cnj) A)"
    using assms(1) by (simp add: is_mat_def list_all_iff)
  from transpose_mat [OF this assms(2)] show ?thesis
    by (simp add: H_def is_mat_def list_all_iff)
qed

lemma H_nth:
  assumes "is_mat m n A" and "k < n" and "j < m"
  shows "H A ! k ! j = cnj (A ! j ! k)"
proof -
  have m: "0 < m" using assms(3) by simp
  have c: "is_mat m n (map (map cnj) A)"
    using assms(1) by (simp add: is_mat_def list_all_iff)
  have "length (A ! j) = n" using is_mat_row [OF assms(1) assms(3)] .
  then show ?thesis
    using assms by (simp add: H_def transpose_mat [OF c m] is_mat_def)
qed

subsection \<open>The contribution of one gust\<close>

lemma gust_Sqq_is_mat: "length u = N \<Longrightarrow> is_mat N N (gust_Sqq u dky)"
  by (simp add: gust_Sqq_def scale_def outer_def is_mat_def list_all_iff)

lemma gust_Sqq_nth:
  "k < length u \<Longrightarrow> j < length u \<Longrightarrow>
     gust_Sqq u dky ! k ! j = u ! k * cnj (u ! j) * complex_of_real Ux * complex_of_real dky"
  by (simp add: gust_Sqq_def scale_def outer_def)



lemma iadd_length: "iadd acc t = Inr acc' \<Longrightarrow> length acc' = length acc"
  by (auto simp: iadd_def split: if_splits)

lemma iadd_real:
  assumes "iadd acc t = Inr acc'" and "all_real acc"
  shows "all_real acc'"
  using assms
  by (auto simp: iadd_def all_real_def list_all_iff set_zip split: if_splits)


lemma accumulate_length: "accumulate N G S acc = Inr acc' \<Longrightarrow> length acc' = length acc"
  by (auto simp: accumulate_def dest: iadd_length split: if_splits)

lemma accumulate_real:
  "accumulate N G S acc = Inr acc' \<Longrightarrow> all_real acc \<Longrightarrow> all_real acc'"
  by (auto simp: accumulate_def dest: iadd_real split: if_splits)


lemma accumulate_total:
  assumes "is_mat M N G" and "length acc = M"
  shows "\<exists>acc'. accumulate N G S acc = Inr acc' \<and> length acc' = M"
  using assms
  by (simp add: accumulate_def is_mat_def iadd_def diag_length matmul_length)

lemma gust_update_real:
  assumes "gust_update N w dky v GX GY s = Inr s'"
    and "all_real (Spp_Xdir s)" and "all_real (Spp_Ydir s)"
  shows "all_real (Spp_Xdir s') \<and> all_real (Spp_Ydir s')"
  using assms
  by (auto simp: gust_update_def Let_def dest: accumulate_real split: if_splits sum.splits)


lemma gust_update_length:
  assumes "gust_update N w dky v GX GY s = Inr s'"
  shows "length (Spp_Xdir s') = length (Spp_Xdir s) \<and> length (Spp_Ydir s') = length (Spp_Ydir s)"
  using assms
  by (auto simp: gust_update_def Let_def dest: accumulate_length split: if_splits sum.splits)

lemma gust_update_total:
  assumes v: "length v = N" and GX: "is_mat M N GX" and GY: "is_mat M N GY"
    and X: "length (Spp_Xdir s) = M" and Y: "length (Spp_Ydir s) = M"
  shows "\<exists>s'. gust_update N w dky v GX GY s = Inr s' \<and>
           length (Spp_Xdir s') = M \<and> length (Spp_Ydir s') = M"
proof -
  let ?S = "gust_Sqq (map (\<lambda>z. z * complex_of_real w) v) dky"
  obtain X' where X': "accumulate N GX ?S (Spp_Xdir s) = Inr X'" "length X' = M"
    using accumulate_total [OF GX X] by blast
  obtain Y' where Y': "accumulate N GY ?S (Spp_Ydir s) = Inr Y'" "length Y' = M"
    using accumulate_total [OF GY Y] by blast
  show ?thesis using v X' Y' by (simp add: gust_update_def Let_def)
qed

lemma gust_body_real:
  assumes "gust_body ext N dky Ky Phi2 kyi s = Inr s'"
    and "all_real (Spp_Xdir s)" and "all_real (Spp_Ydir s)"
  shows "all_real (Spp_Xdir s') \<and> all_real (Spp_Ydir s')"
  using assms by (auto simp: gust_body_def Let_def dest: gust_update_real split: if_splits)


subsection \<open>The loop over the gusts\<close>

lemma gust_loop_real:
  assumes "gust_loop ext N dky Ky Phi2 ks s = Inr s'"
    and "all_real (Spp_Xdir s)" and "all_real (Spp_Ydir s)"
  shows "all_real (Spp_Xdir s') \<and> all_real (Spp_Ydir s')"
  using assms
proof (induction ks arbitrary: s)
  case Nil
  then show ?case by simp
next
  case (Cons kyi rest)
  then obtain s1 where s1: "gust_body ext N dky Ky Phi2 kyi s = Inr s1"
    and rest: "gust_loop ext N dky Ky Phi2 rest s1 = Inr s'"
    by (auto split: sum.splits)
  from gust_body_real [OF s1 Cons.prems(2,3)] Cons.IH [OF rest] show ?case by blast
qed


lemma init_state_nonneg:
  "all_nonneg (Spp_Xdir (init_state N M))" "all_nonneg (Spp_Ydir (init_state N M))"
  "all_real (Spp_Xdir (init_state N M))" "all_real (Spp_Ydir (init_state N M))"
  by (simp_all add: init_state_def all_nonneg_def all_real_def list_all_iff)

text \<open>
  With arrays of the shapes that the script expects, the loop raises no exception.
\<close>

lemma gust_loop_total:
  assumes v: "\<And>w ky. length (delta_p1_dx ext w ky) = N"
    and GX: "is_mat M N (dipole3D ext (XYZ_airfoil_calc ext) XZ_farfield k0 dipole_axis flow_param)"
    and GY: "is_mat M N (dipole3D ext (XYZ_airfoil_calc ext) YZ_farfield k0 dipole_axis flow_param)"
    and ks: "\<forall>kyi\<in>set ks. kyi < length Phi2 \<and> kyi < length Ky"
    and X: "length (Spp_Xdir s) = M" and Y: "length (Spp_Ydir s) = M"
  shows "\<exists>s'. gust_loop ext N dky Ky Phi2 ks s = Inr s' \<and>
           length (Spp_Xdir s') = M \<and> length (Spp_Ydir s') = M"
  using ks X Y
proof (induction ks arbitrary: s)
  case Nil
  then show ?case by simp
next
  case (Cons kyi rest)
  have in_range: "\<not> (length Phi2 \<le> kyi \<or> length Ky \<le> kyi)"
    using Cons.prems(1) by auto
  obtain s1 where s1: "gust_body ext N dky Ky Phi2 kyi s = Inr s1"
    and len1: "length (Spp_Xdir s1) = M" "length (Spp_Ydir s1) = M"
    using gust_update_total [OF v GX GY Cons.prems(2,3)] in_range
    unfolding gust_body_def Let_def by (simp only: if_False) blast
  have "\<forall>kyi\<in>set rest. kyi < length Phi2 \<and> kyi < length Ky"
    using Cons.prems(1) by simp
  from Cons.IH [OF this len1] show ?case by (simp add: s1)
qed



text \<open>
  Claim C5.  There is one accumulator for each arc of observers, both start as all
  zeros, and every entry of both has a zero imaginary part after any number of gusts.
\<close>

theorem accumulators_real:
  "Spp_Xdir (init_state N M) = replicate M 0 \<and> Spp_Ydir (init_state N M) = replicate M 0 \<and>
   (\<forall>n s. gust_loop ext N dky Ky Phi2 [0..<n] (init_state N M) = Inr s \<longrightarrow>
      all_real (Spp_Xdir s) \<and> all_real (Spp_Ydir s))"
  using gust_loop_real [OF _ init_state_nonneg(3,4)]
  by (auto simp: init_state_def)

theorem accumulators_real_witness:
  "\<exists>s. gust_loop
         \<lparr>Phi_2D = (\<lambda>kx Ky u l. map (\<lambda>ky. 1) Ky),
          delta_p1_dx = (\<lambda>w ky. [complex_of_real ky, \<i>]),
          dy = 1 / 2,
          XYZ_airfoil_calc = [],
          dipole3D = (\<lambda>src obs k ax fl. [[1, \<i>], [- \<i>, 2]])\<rparr>
         2 (1 / 10) [0, 1 / 10, 1 / 5] [1, 1, 1] [0..<3] (init_state 2 2) = Inr s \<and>
       all_real (Spp_Xdir s) \<and> all_real (Spp_Ydir s) \<and>
       Spp_Xdir (init_state 2 2) = replicate 2 0 \<and> Spp_Ydir (init_state 2 2) = replicate 2 0"
proof -
  define ext where "ext =
         \<lparr>Phi_2D = (\<lambda>kx Ky u l. map (\<lambda>ky. 1) Ky),
          delta_p1_dx = (\<lambda>w ky. [complex_of_real ky, \<i>]),
          dy = 1 / 2,
          XYZ_airfoil_calc = [],
          dipole3D = (\<lambda>src obs k ax fl. [[1, \<i>], [- \<i>, 2::complex]])\<rparr>"
  have v: "\<And>w ky. length (delta_p1_dx ext w ky) = 2" by (simp add: ext_def)
  have GX: "is_mat 2 2 (dipole3D ext (XYZ_airfoil_calc ext) XZ_farfield k0 dipole_axis flow_param)"
    by (simp add: ext_def is_mat_def)
  have GY: "is_mat 2 2 (dipole3D ext (XYZ_airfoil_calc ext) YZ_farfield k0 dipole_axis flow_param)"
    by (simp add: ext_def is_mat_def)
  have ks: "\<forall>kyi\<in>set [0..<3]. kyi < length [1, 1, 1 :: real] \<and> kyi < length [0, 1 / 10, 1 / 5 :: real]"
    by simp
  have X: "length (Spp_Xdir (init_state 2 2)) = 2" by (simp add: init_state_def)
  have Y: "length (Spp_Ydir (init_state 2 2)) = 2" by (simp add: init_state_def)
  obtain s where
    s: "gust_loop ext 2 (1 / 10) [0, 1 / 10, 1 / 5] [1, 1, 1] [0..<3] (init_state 2 2) = Inr s"
    using gust_loop_total [of ext 2 2 "[0..<3]" "[1, 1, 1]" "[0, 1 / 10, 1 / 5]" "init_state 2 2" "1 / 10",
        OF v GX GY ks X Y] by auto
  note R = accumulators_real [of 2 2 ext "1 / 10" "[0, 1 / 10, 1 / 5]" "[1, 1, 1]"]
  from R have Z: "Spp_Xdir (init_state 2 2) = replicate 2 0"
      "Spp_Ydir (init_state 2 2) = replicate 2 0"
    by (rule conjunct1, rule conjunct2 [THEN conjunct1])
  from R have "\<forall>n s. gust_loop ext 2 (1 / 10) [0, 1 / 10, 1 / 5] [1, 1, 1] [0..<n] (init_state 2 2) = Inr s \<longrightarrow>
      all_real (Spp_Xdir s) \<and> all_real (Spp_Ydir s)"
    by (rule conjunct2 [THEN conjunct2])
  with s have "all_real (Spp_Xdir s) \<and> all_real (Spp_Ydir s)" by blast
  with s Z show ?thesis unfolding ext_def by (intro exI [of _ s] conjI) simp_all
qed

subsection \<open>The covariance matrix of one gust\<close>

lemma sum_list_map2_nth:
  fixes f :: "'a \<Rightarrow> 'b \<Rightarrow> complex"
  assumes "length xs = n" and "length ys = n"
  shows "sum_list (map2 f xs ys) = (\<Sum>i<n. f (xs ! i) (ys ! i))"
proof -
  have "map2 f xs ys = map (\<lambda>i. f (xs ! i) (ys ! i)) [0..<n]"
    using assms by (intro nth_equalityI) auto
  then show ?thesis
    by (simp add: interv_sum_list_conv_sum_set_nat atLeast0LessThan)
qed

lemma gust_Sqq_hermitian: "H (gust_Sqq v dky) = gust_Sqq v dky"
proof (cases "v = []")
  case True
  then show ?thesis by (simp add: gust_Sqq_def outer_def scale_def H_def)
next
  case False
  define n where "n = length v"
  have n: "0 < n" using False by (simp add: n_def)
  have S: "is_mat n n (gust_Sqq v dky)" by (rule gust_Sqq_is_mat) (simp add: n_def)
  have HS: "is_mat n n (H (gust_Sqq v dky))" by (rule H_is_mat [OF S n])
  show ?thesis
  proof (rule nth_equalityI)
    show "length (H (gust_Sqq v dky)) = length (gust_Sqq v dky)"
      using S HS by (simp add: is_mat_def)
  next
    fix k assume "k < length (H (gust_Sqq v dky))"
    then have k: "k < n" using HS by (simp add: is_mat_def)
    show "H (gust_Sqq v dky) ! k = gust_Sqq v dky ! k"
    proof (rule nth_equalityI)
      show "length (H (gust_Sqq v dky) ! k) = length (gust_Sqq v dky ! k)"
        using is_mat_row [OF S k] is_mat_row [OF HS k] by simp
    next
      fix j assume "j < length (H (gust_Sqq v dky) ! k)"
      then have j: "j < n" using is_mat_row [OF HS k] by simp
      show "H (gust_Sqq v dky) ! k ! j = gust_Sqq v dky ! k ! j"
        using k j by (simp add: H_nth [OF S k j] gust_Sqq_nth n_def)
    qed
  qed
qed

lemma quadratic_form_gust_Sqq:
  assumes "length x = length v"
  shows "quadratic_form x (gust_Sqq v dky) =
           complex_of_real (Ux * dky) *
           ((\<Sum>i<length v. cnj (x ! i) * v ! i) * cnj (\<Sum>i<length v. cnj (x ! i) * v ! i))"
proof -
  define n where "n = length v"
  define P where "P = (\<Sum>i<n. cnj (x ! i) * v ! i)"
  define c where "c = complex_of_real Ux * complex_of_real dky"
  have x: "length x = n" using assms by (simp add: n_def)
  have S: "is_mat n n (gust_Sqq v dky)" by (rule gust_Sqq_is_mat) (simp add: n_def)
  then have lenS: "length (gust_Sqq v dky) = n" by (simp add: is_mat_def)
  have cP: "cnj P = (\<Sum>j<n. cnj (v ! j) * x ! j)"
    by (simp add: P_def mult.commute)
  have row: "sum_list (map2 (*) (gust_Sqq v dky ! i) x) = v ! i * c * cnj P" if i: "i < n" for i
  proof -
    have "sum_list (map2 (*) (gust_Sqq v dky ! i) x) = (\<Sum>j<n. gust_Sqq v dky ! i ! j * x ! j)"
      by (rule sum_list_map2_nth [OF is_mat_row [OF S i] x])
    also have "\<dots> = (\<Sum>j<n. (v ! i * c) * (cnj (v ! j) * x ! j))"
      using i by (intro sum.cong) (simp_all add: gust_Sqq_nth n_def c_def)
    also have "\<dots> = v ! i * c * cnj P"
      by (simp add: cP sum_distrib_left)
    finally show ?thesis .
  qed
  have "quadratic_form x (gust_Sqq v dky) =
          (\<Sum>i<n. cnj (x ! i) * sum_list (map2 (*) (gust_Sqq v dky ! i) x))"
    unfolding quadratic_form_def by (rule sum_list_map2_nth [OF x lenS])
  also have "\<dots> = (\<Sum>i<n. (cnj (x ! i) * v ! i) * (c * cnj P))"
    by (intro sum.cong) (simp_all add: row)
  also have "\<dots> = P * (c * cnj P)"
    by (simp add: P_def sum_distrib_right)
  finally show ?thesis by (simp add: P_def c_def n_def mult_ac)
qed

text \<open>
  Claim C2.  For every pressure-jump vector and a positive bin width, the covariance
  matrix \<open>outer(delta_p1_calc, conj(delta_p1_calc)) * Ux * dky\<close> of a gust equals its
  own conjugate transpose, and its Hermitian form at every vector of the same length is
  a non-negative real number.
\<close>

theorem gust_Sqq_hermitian_psd:
  assumes "0 < dky"
  shows "H (gust_Sqq v dky) = gust_Sqq v dky \<and>
         (\<forall>x. length x = length v \<longrightarrow>
            Im (quadratic_form x (gust_Sqq v dky)) = 0 \<and>
            0 \<le> Re (quadratic_form x (gust_Sqq v dky)))"
proof (intro conjI allI impI)
  show "H (gust_Sqq v dky) = gust_Sqq v dky" by (rule gust_Sqq_hermitian)
next
  fix x :: cvec assume x: "length x = length v"
  have e: "complex_of_real a * (z * cnj z) = complex_of_real (a * (cmod z)\<^sup>2)" for a z
    unfolding complex_norm_square [symmetric] by simp
  have c: "0 \<le> Ux * dky" using assms by (simp add: Ux_def)
  show "Im (quadratic_form x (gust_Sqq v dky)) = 0"
    by (simp only: quadratic_form_gust_Sqq [OF x] e Im_complex_of_real)
  have "0 \<le> Ux * dky * (cmod (\<Sum>i<length v. cnj (x ! i) * v ! i))\<^sup>2"
    using c by (rule mult_nonneg_nonneg) simp
  then show "0 \<le> Re (quadratic_form x (gust_Sqq v dky))"
    by (simp only: quadratic_form_gust_Sqq [OF x] e Re_complex_of_real)
qed

theorem gust_Sqq_hermitian_psd_witness:
  "H (gust_Sqq [1, \<i>] (1 / 10)) = gust_Sqq [1, \<i>] (1 / 10) \<and>
   Im (quadratic_form [\<i>, 2] (gust_Sqq [1, \<i>] (1 / 10))) = 0 \<and>
   0 \<le> Re (quadratic_form [\<i>, 2] (gust_Sqq [1, \<i>] (1 / 10)))"
proof -
  have "(0::real) < 1 / 10" by simp
  from gust_Sqq_hermitian_psd [OF this, of "[1, \<i>]"]
  have A: "H (gust_Sqq [1, \<i>] (1 / 10)) = gust_Sqq [1, \<i>] (1 / 10)"
    and B: "\<forall>x. length x = length [1, \<i>] \<longrightarrow>
            Im (quadratic_form x (gust_Sqq [1, \<i>] (1 / 10))) = 0 \<and>
            0 \<le> Re (quadratic_form x (gust_Sqq [1, \<i>] (1 / 10)))"
    by blast+
  have "length [\<i>, 2 :: complex] = length [1, \<i>]" by simp
  with B have "Im (quadratic_form [\<i>, 2] (gust_Sqq [1, \<i>] (1 / 10))) = 0 \<and>
            0 \<le> Re (quadratic_form [\<i>, 2] (gust_Sqq [1, \<i>] (1 / 10)))"
    by blast
  with A show ?thesis by blast
qed

subsection \<open>Green's functions computed once\<close>

lemma gust_loop_cached_eq:
  "gust_loop_cached ext N dky Ky Phi2
     (dipole3D ext (XYZ_airfoil_calc ext) XZ_farfield k0 dipole_axis flow_param)
     (dipole3D ext (XYZ_airfoil_calc ext) YZ_farfield k0 dipole_axis flow_param) ks s =
   gust_loop ext N dky Ky Phi2 ks s"
proof (induction ks arbitrary: s)
  case Nil
  show ?case by simp
next
  case (Cons kyi rest)
  show ?case
  proof (cases "length Phi2 \<le> kyi \<or> length Ky \<le> kyi")
    case True
    then show ?thesis by (simp add: gust_body_def)
  next
    case False
    then show ?thesis
      by (simp add: gust_body_def Let_def Cons.IH split: sum.splits)
  qed
qed

text \<open>
  Claim C6.  With \<open>dipole3D\<close> a function of its arguments, computing the two matrices
  of Green's functions once before the loop gives the same result, accumulators
  included, as computing them anew for every gust.
\<close>

theorem cached_greens_functions_same_spectra:
  "multiple_gusts_cached ext N M hs kyc = multiple_gusts ext N M hs kyc"
  by (simp add: multiple_gusts_cached_def multiple_gusts_def Let_def gust_loop_cached_eq
      split: sum.splits prod.splits)

theorem cached_greens_functions_same_spectra_witness:
  "multiple_gusts_cached
         \<lparr>Phi_2D = (\<lambda>kx Ky u l. map (\<lambda>ky. 1) Ky),
          delta_p1_dx = (\<lambda>w ky. [complex_of_real ky, \<i>]),
          dy = 1 / 2,
          XYZ_airfoil_calc = [],
          dipole3D = (\<lambda>src obs k ax fl. [[1, \<i>], [- \<i>, 2]])\<rparr> 2 2 d 0 =
   multiple_gusts
         \<lparr>Phi_2D = (\<lambda>kx Ky u l. map (\<lambda>ky. 1) Ky),
          delta_p1_dx = (\<lambda>w ky. [complex_of_real ky, \<i>]),
          dy = 1 / 2,
          XYZ_airfoil_calc = [],
          dipole3D = (\<lambda>src obs k ax fl. [[1, \<i>], [- \<i>, 2]])\<rparr> 2 2 d 0"
  by (rule cached_greens_functions_same_spectra)

subsection \<open>The bin width that weights the gusts\<close>

lemma gust_body_total:
  assumes v: "\<And>w ky. length (delta_p1_dx ext w ky) = N"
    and GX: "is_mat M N (dipole3D ext (XYZ_airfoil_calc ext) XZ_farfield k0 dipole_axis flow_param)"
    and GY: "is_mat M N (dipole3D ext (XYZ_airfoil_calc ext) YZ_farfield k0 dipole_axis flow_param)"
    and kyi: "kyi < length Phi2" "kyi < length Ky"
    and X: "length (Spp_Xdir s) = M" and Y: "length (Spp_Ydir s) = M"
  shows "\<exists>s'. gust_body ext N dky Ky Phi2 kyi s = Inr s'"
proof -
  have in_range: "\<not> (length Phi2 \<le> kyi \<or> length Ky \<le> kyi)" using kyi by auto
  show ?thesis
    using gust_update_total [OF v GX GY X Y] in_range
    unfolding gust_body_def Let_def by (simp only: if_False) blast
qed

lemma gust_body_Sqq:
  assumes "gust_body ext N dky Ky Phi2 kyi s = Inr s'"
  shows "Sqq s' = gust_Sqq (map (\<lambda>z. z * complex_of_real (dy ext))
                       (delta_p1_dx ext (np_sqrt (Phi2 ! kyi)) (Ky ! kyi))) dky"
  using assms
  by (auto simp: gust_body_def gust_update_def Let_def split: if_splits sum.splits)

lemma gust_loop_snoc:
  "gust_loop ext N dky Ky Phi2 (ks @ [kyi]) s =
     (case gust_loop ext N dky Ky Phi2 ks s of
        Inl e \<Rightarrow> Inl e
      | Inr s1 \<Rightarrow> gust_body ext N dky Ky Phi2 kyi s1)"
  by (induction ks arbitrary: s) (simp_all split: sum.splits)

text \<open>
  After a gust the array \<open>Sqq\<close> holds the products of the entries of the weighted
  pressure jump of that gust, times the flow speed and the bin width.
\<close>

lemma gust_body_Sqq_entries:
  assumes "gust_body ext N dky Ky Phi2 kyi s = Inr s'"
  shows "length (delta_p1_dx ext (np_sqrt (Phi2 ! kyi)) (Ky ! kyi)) = N"
    and "is_mat N N (Sqq s')"
    and "i < N \<Longrightarrow> j < N \<Longrightarrow>
         Sqq s' ! i ! j =
           (delta_p1_dx ext (np_sqrt (Phi2 ! kyi)) (Ky ! kyi) ! i * complex_of_real (dy ext)) *
           cnj (delta_p1_dx ext (np_sqrt (Phi2 ! kyi)) (Ky ! kyi) ! j * complex_of_real (dy ext)) *
           complex_of_real Ux * complex_of_real dky"
proof -
  let ?v = "delta_p1_dx ext (np_sqrt (Phi2 ! kyi)) (Ky ! kyi)"
  let ?u = "map (\<lambda>z. z * complex_of_real (dy ext)) ?v"
  show len: "length ?v = N"
    using assms by (auto simp: gust_body_def gust_update_def Let_def split: if_splits)
  have S: "Sqq s' = gust_Sqq ?u dky" by (rule gust_body_Sqq [OF assms])
  have u: "length ?u = N" using len by simp
  show "is_mat N N (Sqq s')" unfolding S by (rule gust_Sqq_is_mat [OF u])
  assume "i < N" and "j < N"
  then have "i < length ?u" and "j < length ?u" using u by simp_all
  from gust_Sqq_nth [OF this] show "Sqq s' ! i ! j =
           (?v ! i * complex_of_real (dy ext)) * cnj (?v ! j * complex_of_real (dy ext)) *
           complex_of_real Ux * complex_of_real dky"
    unfolding S using \<open>i < N\<close> \<open>j < N\<close> len by simp
qed

lemma gust_loop_Sqq_entries:
  assumes "gust_loop ext N dky Ky Phi2 [0..<Suc n] s0 = Inr s" and "i < N" and "j < N"
  shows "Sqq s ! i ! j =
           (delta_p1_dx ext (np_sqrt (Phi2 ! n)) (Ky ! n) ! i * complex_of_real (dy ext)) *
           cnj (delta_p1_dx ext (np_sqrt (Phi2 ! n)) (Ky ! n) ! j * complex_of_real (dy ext)) *
           complex_of_real Ux * complex_of_real dky"
proof -
  have "gust_loop ext N dky Ky Phi2 ([0..<n] @ [n]) s0 = Inr s" using assms(1) by simp
  then obtain s1 where "gust_body ext N dky Ky Phi2 n s1 = Inr s"
    unfolding gust_loop_snoc by (auto split: sum.splits)
  from gust_body_Sqq_entries(3) [OF this assms(2,3)] show ?thesis .
qed

text \<open>
  Claim C7.  The bin width is read off the grid, \<open>dky = Ky[1] - Ky[0]\<close>; for the
  grids of both regimes it is the distance of the endpoints divided by \<open>N_ky - 1\<close>.
  The loop runs with this value, and after every gust, as in the state that the
  integration returns, the entry of \<open>Sqq\<close> in row \<open>i\<close> and column \<open>j\<close> is
  \<open>delta_p1_calc[i] * conj(delta_p1_calc[j]) * Ux * dky\<close> with the weighted pressure
  jump \<open>delta_p1_calc = delta_p1 * dx * dy\<close> of that gust.
\<close>

theorem bin_width_from_grid:
  assumes "0 < hs"
  shows "\<exists>N_ky Ky dky. wavenumber_grid hs kyc = Inr (N_ky, Ky) \<and>
           bin_width Ky = Inr dky \<and> dky = Ky ! 1 - Ky ! 0 \<and>
           dky = (last Ky - Ky ! 0) / real_of_int (N_ky - 1) \<and>
           0 < length Ky \<and>
           multiple_gusts ext N M hs kyc =
             gust_loop ext N dky Ky (Phi_2D ext Kx Ky u_mean2 length_scale)
               [0..<length Ky] (init_state N M) \<and>
           (\<forall>n s i j.
              gust_loop ext N dky Ky (Phi_2D ext Kx Ky u_mean2 length_scale)
                [0..<Suc n] (init_state N M) = Inr s \<and> i < N \<and> j < N \<longrightarrow>
              Sqq s ! i ! j =
                (delta_p1_dx ext (np_sqrt (Phi_2D ext Kx Ky u_mean2 length_scale ! n)) (Ky ! n) ! i *
                   complex_of_real (dy ext)) *
                cnj (delta_p1_dx ext (np_sqrt (Phi_2D ext Kx Ky u_mean2 length_scale ! n)) (Ky ! n) ! j *
                   complex_of_real (dy ext)) *
                complex_of_real Ux * complex_of_real dky) \<and>
           (\<forall>s i j. multiple_gusts ext N M hs kyc = Inr s \<and> i < N \<and> j < N \<longrightarrow>
              Sqq s ! i ! j =
                (delta_p1_dx ext
                   (np_sqrt (Phi_2D ext Kx Ky u_mean2 length_scale ! (length Ky - 1)))
                   (Ky ! (length Ky - 1)) ! i * complex_of_real (dy ext)) *
                cnj (delta_p1_dx ext
                   (np_sqrt (Phi_2D ext Kx Ky u_mean2 length_scale ! (length Ky - 1)))
                   (Ky ! (length Ky - 1)) ! j * complex_of_real (dy ext)) *
                complex_of_real Ux * complex_of_real dky)"
proof -
  obtain N_ky Ky w where g: "wavenumber_grid hs kyc = Inr (N_ky, Ky)"
    and Ky: "linspace (- w) w N_ky = Inr Ky" and N: "41 \<le> N_ky" and w: "0 < w"
    using grid_cases [OF assms, of kyc] by blast
  define dky where "dky = Ky ! 1 - Ky ! 0"
  define Phi2 where "Phi2 = Phi_2D ext Kx Ky u_mean2 length_scale"
  have bw: "bin_width Ky = Inr dky"
    using grid_bin_width(1) [OF Ky N w] by (simp add: dky_def)
  have "dky = 2 * w / real_of_int (N_ky - 1)"
    using grid_bin_width(2) [OF Ky N w] by (simp add: dky_def)
  then have ends: "dky = (last Ky - Ky ! 0) / real_of_int (N_ky - 1)"
    using grid_bin_width(5,6) [OF Ky N w] by simp
  have len: "0 < length Ky" using grid_bin_width(4) [OF Ky N w] N by simp
  have run: "multiple_gusts ext N M hs kyc =
             gust_loop ext N dky Ky Phi2 [0..<length Ky] (init_state N M)"
    by (simp add: multiple_gusts_def g bw Let_def Phi2_def)
  have pre: "\<forall>n s i j.
              gust_loop ext N dky Ky Phi2 [0..<Suc n] (init_state N M) = Inr s \<and> i < N \<and> j < N \<longrightarrow>
              Sqq s ! i ! j =
                (delta_p1_dx ext (np_sqrt (Phi2 ! n)) (Ky ! n) ! i * complex_of_real (dy ext)) *
                cnj (delta_p1_dx ext (np_sqrt (Phi2 ! n)) (Ky ! n) ! j * complex_of_real (dy ext)) *
                complex_of_real Ux * complex_of_real dky"
    using gust_loop_Sqq_entries by blast
  have Suc: "[0..<length Ky] = [0..<Suc (length Ky - 1)]" using len by simp
  have fin: "\<forall>s i j. multiple_gusts ext N M hs kyc = Inr s \<and> i < N \<and> j < N \<longrightarrow>
              Sqq s ! i ! j =
                (delta_p1_dx ext (np_sqrt (Phi2 ! (length Ky - 1))) (Ky ! (length Ky - 1)) ! i *
                   complex_of_real (dy ext)) *
                cnj (delta_p1_dx ext (np_sqrt (Phi2 ! (length Ky - 1))) (Ky ! (length Ky - 1)) ! j *
                   complex_of_real (dy ext)) *
                complex_of_real Ux * complex_of_real dky"
    unfolding run Suc using gust_loop_Sqq_entries by blast
  show ?thesis
    using g bw ends len run pre fin unfolding Phi2_def
    by (intro exI [of _ N_ky] exI [of _ Ky] exI [of _ dky] conjI) (assumption | rule dky_def)+
qed

theorem bin_width_from_grid_witness:
  "\<exists>N_ky Ky dky. wavenumber_grid d 0 = Inr (N_ky, Ky) \<and>
           bin_width Ky = Inr dky \<and> dky = Ky ! 1 - Ky ! 0 \<and>
           dky = (last Ky - Ky ! 0) / real_of_int (N_ky - 1) \<and>
           (\<exists>s. gust_loop
              \<lparr>Phi_2D = (\<lambda>kx Ky u l. map (\<lambda>ky. 1) Ky),
               delta_p1_dx = (\<lambda>w ky. [complex_of_real ky, \<i>]),
               dy = 1 / 2,
               XYZ_airfoil_calc = [],
               dipole3D = (\<lambda>src obs k ax fl. [[1, \<i>], [- \<i>, 2]])\<rparr> 2 dky Ky
               (map (\<lambda>ky. 1) Ky) [0..<Suc 0] (init_state 2 2) = Inr s \<and>
              Sqq s ! 0 ! 1 =
                (complex_of_real (Ky ! 0) * complex_of_real (1 / 2)) *
                cnj (\<i> * complex_of_real (1 / 2)) *
                complex_of_real Ux * complex_of_real dky) \<and>
           (\<exists>s. multiple_gusts
              \<lparr>Phi_2D = (\<lambda>kx Ky u l. map (\<lambda>ky. 1) Ky),
               delta_p1_dx = (\<lambda>w ky. [complex_of_real ky, \<i>]),
               dy = 1 / 2,
               XYZ_airfoil_calc = [],
               dipole3D = (\<lambda>src obs k ax fl. [[1, \<i>], [- \<i>, 2]])\<rparr> 2 2 d 0 = Inr s \<and>
              Sqq s ! 0 ! 1 =
                (complex_of_real (Ky ! (length Ky - 1)) * complex_of_real (1 / 2)) *
                cnj (\<i> * complex_of_real (1 / 2)) *
                complex_of_real Ux * complex_of_real dky)"
proof -
  define ext where "ext =
         \<lparr>Phi_2D = (\<lambda>kx Ky u l. map (\<lambda>ky. 1) Ky),
          delta_p1_dx = (\<lambda>w ky. [complex_of_real ky, \<i>]),
          dy = 1 / 2,
          XYZ_airfoil_calc = [],
          dipole3D = (\<lambda>src obs k ax fl. [[1, \<i>], [- \<i>, 2::complex]])\<rparr>"
  have d: "0 < d" by (simp add: d_def)
  from bin_width_from_grid [OF d, of 0 ext 2 2]
  obtain N_ky Ky dky where g: "wavenumber_grid d 0 = Inr (N_ky, Ky)"
    and bw: "bin_width Ky = Inr dky" and dky: "dky = Ky ! 1 - Ky ! 0"
    and ends: "dky = (last Ky - Ky ! 0) / real_of_int (N_ky - 1)"
    and len: "0 < length Ky"
    and run: "multiple_gusts ext 2 2 d 0 =
             gust_loop ext 2 dky Ky (Phi_2D ext Kx Ky u_mean2 length_scale)
               [0..<length Ky] (init_state 2 2)"
    and pre: "\<forall>n s i j.
              gust_loop ext 2 dky Ky (Phi_2D ext Kx Ky u_mean2 length_scale)
                [0..<Suc n] (init_state 2 2) = Inr s \<and> i < 2 \<and> j < 2 \<longrightarrow>
              Sqq s ! i ! j =
                (delta_p1_dx ext (np_sqrt (Phi_2D ext Kx Ky u_mean2 length_scale ! n)) (Ky ! n) ! i *
                   complex_of_real (dy ext)) *
                cnj (delta_p1_dx ext (np_sqrt (Phi_2D ext Kx Ky u_mean2 length_scale ! n)) (Ky ! n) ! j *
                   complex_of_real (dy ext)) *
                complex_of_real Ux * complex_of_real dky"
    and fin: "\<forall>s i j. multiple_gusts ext 2 2 d 0 = Inr s \<and> i < 2 \<and> j < 2 \<longrightarrow>
              Sqq s ! i ! j =
                (delta_p1_dx ext
                   (np_sqrt (Phi_2D ext Kx Ky u_mean2 length_scale ! (length Ky - 1)))
                   (Ky ! (length Ky - 1)) ! i * complex_of_real (dy ext)) *
                cnj (delta_p1_dx ext
                   (np_sqrt (Phi_2D ext Kx Ky u_mean2 length_scale ! (length Ky - 1)))
                   (Ky ! (length Ky - 1)) ! j * complex_of_real (dy ext)) *
                complex_of_real Ux * complex_of_real dky"
    by blast
  have Phi: "Phi_2D ext Kx Ky u_mean2 length_scale = map (\<lambda>ky. 1) Ky" by (simp add: ext_def)
  have v: "\<And>w ky. length (delta_p1_dx ext w ky) = 2" by (simp add: ext_def)
  have GX: "is_mat 2 2 (dipole3D ext (XYZ_airfoil_calc ext) XZ_farfield k0 dipole_axis flow_param)"
    by (simp add: ext_def is_mat_def)
  have GY: "is_mat 2 2 (dipole3D ext (XYZ_airfoil_calc ext) YZ_farfield k0 dipole_axis flow_param)"
    by (simp add: ext_def is_mat_def)
  have X: "length (Spp_Xdir (init_state 2 2)) = 2" by (simp add: init_state_def)
  have Y: "length (Spp_Ydir (init_state 2 2)) = 2" by (simp add: init_state_def)
  have ks1: "\<forall>kyi\<in>set [0..<Suc 0]. kyi < length (map (\<lambda>ky. 1::real) Ky) \<and> kyi < length Ky"
    using len by simp
  have ksn: "\<forall>kyi\<in>set [0..<length Ky]. kyi < length (map (\<lambda>ky. 1::real) Ky) \<and> kyi < length Ky"
    by simp
  obtain s1 where s1: "gust_loop ext 2 dky Ky (map (\<lambda>ky. 1) Ky) [0..<Suc 0] (init_state 2 2) = Inr s1"
    using gust_loop_total [of ext 2 2 "[0..<Suc 0]" "map (\<lambda>ky. 1) Ky" Ky "init_state 2 2" dky,
        OF v GX GY ks1 X Y] by blast
  obtain sn where "gust_loop ext 2 dky Ky (map (\<lambda>ky. 1) Ky) [0..<length Ky] (init_state 2 2) = Inr sn"
    using gust_loop_total [of ext 2 2 "[0..<length Ky]" "map (\<lambda>ky. 1) Ky" Ky "init_state 2 2" dky,
        OF v GX GY ksn X Y] by blast
  then have sn: "multiple_gusts ext 2 2 d 0 = Inr sn" unfolding run Phi .
  have "gust_loop ext 2 dky Ky (Phi_2D ext Kx Ky u_mean2 length_scale)
                [0..<Suc 0] (init_state 2 2) = Inr s1 \<and> (0::nat) < 2 \<and> (1::nat) < 2"
    using s1 unfolding Phi by simp
  with pre have "Sqq s1 ! 0 ! 1 =
                (delta_p1_dx ext (np_sqrt (Phi_2D ext Kx Ky u_mean2 length_scale ! 0)) (Ky ! 0) ! 0 *
                   complex_of_real (dy ext)) *
                cnj (delta_p1_dx ext (np_sqrt (Phi_2D ext Kx Ky u_mean2 length_scale ! 0)) (Ky ! 0) ! 1 *
                   complex_of_real (dy ext)) *
                complex_of_real Ux * complex_of_real dky"
    by blast
  then have e1: "Sqq s1 ! 0 ! 1 =
                (complex_of_real (Ky ! 0) * complex_of_real (1 / 2)) *
                cnj (\<i> * complex_of_real (1 / 2)) *
                complex_of_real Ux * complex_of_real dky"
    by (simp add: ext_def)
  have "multiple_gusts ext 2 2 d 0 = Inr sn \<and> (0::nat) < 2 \<and> (1::nat) < 2"
    using sn by simp
  with fin have "Sqq sn ! 0 ! 1 =
                (delta_p1_dx ext
                   (np_sqrt (Phi_2D ext Kx Ky u_mean2 length_scale ! (length Ky - 1)))
                   (Ky ! (length Ky - 1)) ! 0 * complex_of_real (dy ext)) *
                cnj (delta_p1_dx ext
                   (np_sqrt (Phi_2D ext Kx Ky u_mean2 length_scale ! (length Ky - 1)))
                   (Ky ! (length Ky - 1)) ! 1 * complex_of_real (dy ext)) *
                complex_of_real Ux * complex_of_real dky"
    by blast
  then have en: "Sqq sn ! 0 ! 1 =
                (complex_of_real (Ky ! (length Ky - 1)) * complex_of_real (1 / 2)) *
                cnj (\<i> * complex_of_real (1 / 2)) *
                complex_of_real Ux * complex_of_real dky"
    by (simp add: ext_def)
  have A: "\<exists>s. gust_loop ext 2 dky Ky (map (\<lambda>ky. 1) Ky) [0..<Suc 0] (init_state 2 2) = Inr s \<and>
              Sqq s ! 0 ! 1 =
                (complex_of_real (Ky ! 0) * complex_of_real (1 / 2)) *
                cnj (\<i> * complex_of_real (1 / 2)) *
                complex_of_real Ux * complex_of_real dky"
    using s1 e1 by blast
  have B: "\<exists>s. multiple_gusts ext 2 2 d 0 = Inr s \<and>
              Sqq s ! 0 ! 1 =
                (complex_of_real (Ky ! (length Ky - 1)) * complex_of_real (1 / 2)) *
                cnj (\<i> * complex_of_real (1 / 2)) *
                complex_of_real Ux * complex_of_real dky"
    using sn en by blast
  show ?thesis
    using g bw ends A B unfolding ext_def
    by (intro exI [of _ N_ky] exI [of _ Ky] exI [of _ dky] conjI) (assumption | rule dky)+
qed

section \<open>Normalisation for the plots\<close>

text \<open>
  Claim C8.  The normalised arrays are the accumulated spectra divided by the literal
  \<open>4.296e-8\<close>, whatever the spectra are; the maximum that line 168 computes does not
  enter the result.
\<close>

theorem normalise_by_literal:
  assumes "X \<noteq> []" and "Y \<noteq> []"
  shows "normalise X Y =
           Inr (map (\<lambda>z. z / complex_of_real (4.296 / 10 ^ 8)) X,
                map (\<lambda>z. z / complex_of_real (4.296 / 10 ^ 8)) Y)"
proof -
  obtain x xs where X: "X = x # xs" using assms(1) by (cases X) auto
  obtain y ys where Y: "Y = y # ys" using assms(2) by (cases Y) auto
  show ?thesis unfolding X Y by (simp add: normalise_def amax_def Let_def)
qed

theorem normalise_by_literal_witness:
  "[1, 2 :: complex] \<noteq> [] \<and> [\<i>] \<noteq> [] \<and>
   normalise [1, 2] [\<i>] =
           Inr (map (\<lambda>z. z / complex_of_real (4.296 / 10 ^ 8)) [1, 2],
                map (\<lambda>z. z / complex_of_real (4.296 / 10 ^ 8)) [\<i>])"
proof -
  have a: "[1, 2 :: complex] \<noteq> []" and b: "[\<i>] \<noteq> []" by simp_all
  from a b normalise_by_literal [OF a b] show ?thesis by (intro conjI)
qed

section \<open>The operating frequency\<close>

text \<open>Bounds of \<open>pi\<close> from the sine of \<open>pi / 6\<close> and its Taylor polynomial.\<close>

lemma sum_upto_7:
  fixes f :: "nat \<Rightarrow> real"
  shows "(\<Sum>m<7. f m) = f 0 + f 1 + f 2 + f 3 + f 4 + f 5 + f 6"
  by (simp add: numeral_eq_Suc lessThan_Suc)

lemma sin_coeff_values:
  "sin_coeff (Suc 0) = 1" "sin_coeff 2 = 0" "sin_coeff 3 = - 1 / 6" "sin_coeff 4 = 0"
  "sin_coeff 5 = 1 / 120" "sin_coeff 6 = 0"
  by (simp_all add: sin_coeff_def fact_numeral)

lemma sin_poly7:
  fixes x :: real
  shows "\<bar>sin x - (x - x ^ 3 / 6 + x ^ 5 / 120)\<bar> \<le> \<bar>x\<bar> ^ 7 / 5040"
proof -
  have "(\<Sum>m<7. sin_coeff m * x ^ m) =
      sin_coeff 0 * x ^ 0 + sin_coeff 1 * x ^ 1 + sin_coeff 2 * x ^ 2 + sin_coeff 3 * x ^ 3 +
      sin_coeff 4 * x ^ 4 + sin_coeff 5 * x ^ 5 + sin_coeff 6 * x ^ 6"
    by (rule sum_upto_7)
  also have "\<dots> = x - x ^ 3 / 6 + x ^ 5 / 120"
    by (simp add: sin_coeff_values)
  finally have p: "(\<Sum>m<7. sin_coeff m * x ^ m) = x - x ^ 3 / 6 + x ^ 5 / 120" .
  have f: "inverse (fact 7) = (1 / 5040 :: real)" by (simp add: fact_numeral)
  have "\<bar>sin x - (x - x ^ 3 / 6 + x ^ 5 / 120)\<bar> \<le> inverse (fact 7) * \<bar>x\<bar> ^ 7"
    using Maclaurin_sin_bound [of x 7] unfolding p .
  then show ?thesis unfolding f by simp
qed

lemma pi_lower: "3.1404 < pi"
proof -
  let ?a = "0.5234 :: real"
  have "\<bar>sin ?a - (?a - ?a ^ 3 / 6 + ?a ^ 5 / 120)\<bar> \<le> \<bar>?a\<bar> ^ 7 / 5040"
    by (rule sin_poly7)
  then have "sin ?a \<le> (?a - ?a ^ 3 / 6 + ?a ^ 5 / 120) + \<bar>?a\<bar> ^ 7 / 5040"
    by linarith
  also have "\<dots> < 1 / 2" by (simp add: power_divide)
  finally have "sin ?a < sin (pi / 6)" by (simp add: sin_30)
  moreover have "- (pi / 2) \<le> ?a" "?a \<le> pi / 2" "- (pi / 2) \<le> pi / 6" "pi / 6 \<le> pi / 2"
    using pi_ge_two by simp_all
  ultimately have "?a < pi / 6" by (simp only: sin_mono_less_eq)
  then show ?thesis by simp
qed

lemma pi_upper: "pi < 3.142"
proof -
  let ?a = "0.52366 :: real"
  have "\<bar>sin ?a - (?a - ?a ^ 3 / 6 + ?a ^ 5 / 120)\<bar> \<le> \<bar>?a\<bar> ^ 7 / 5040"
    by (rule sin_poly7)
  then have "(?a - ?a ^ 3 / 6 + ?a ^ 5 / 120) - \<bar>?a\<bar> ^ 7 / 5040 \<le> sin ?a"
    by linarith
  moreover have "1 / 2 < (?a - ?a ^ 3 / 6 + ?a ^ 5 / 120) - \<bar>?a\<bar> ^ 7 / 5040"
    by (simp add: power_divide)
  ultimately have "sin (pi / 6) < sin ?a" by (simp add: sin_30)
  moreover have "- (pi / 2) \<le> ?a" "?a \<le> pi / 2" "- (pi / 2) \<le> pi / 6" "pi / 6 \<le> pi / 2"
    using pi_ge_two by simp_all
  ultimately have "pi / 6 < ?a" by (simp only: sin_mono_less_eq)
  then show ?thesis by simp
qed

lemma f0_value: "f0 = 1700 / (3 * pi)"
  by (simp add: f0_def kc_def c0_def b_def)

text \<open>
  Claim C9 as stated, a frequency of 180.6 Hz at one decimal, does not hold: the
  frequency is below 180.55 Hz.
\<close>

theorem f0_not_180_6: "\<not> (180.55 \<le> f0 \<and> f0 < 180.65)"
proof -
  have "f0 * (3 * pi) = 1700" by (simp add: f0_value)
  moreover have "180.55 * (3 * 3.1404) > (1700 :: real)" by simp
  moreover have "180.55 * (3 * pi) > 180.55 * (3 * 3.1404)" using pi_lower by simp
  ultimately have "f0 * (3 * pi) < 180.55 * (3 * pi)" by linarith
  then have "f0 < 180.55" using pi_gt_zero by simp
  then show ?thesis by simp
qed

text \<open>
  Claim C9, amended.  With \<open>b = 0.075\<close>, \<open>c0 = 340\<close> and \<open>kc = 0.5\<close> the frequency
  \<open>f0 = kc c0 / (2 pi (2 b))\<close> lies between 180.35 Hz and 180.45 Hz: it is 180.4 Hz at
  one decimal.
\<close>

theorem f0_rounds_to_180_4: "180.35 \<le> f0 \<and> f0 < 180.45"
proof -
  have e: "f0 * (3 * pi) = 1700" by (simp add: f0_value)
  have "180.45 * (3 * pi) > 180.45 * (3 * 3.1404)" using pi_lower by simp
  moreover have "180.45 * (3 * 3.1404) > (1700 :: real)" by simp
  ultimately have "f0 * (3 * pi) < 180.45 * (3 * pi)" using e by linarith
  then have up: "f0 < 180.45" using pi_gt_zero by simp
  have "180.35 * (3 * pi) < 180.35 * (3 * 3.142)" using pi_upper by simp
  moreover have "180.35 * (3 * 3.142) < (1700 :: real)" by simp
  ultimately have "180.35 * (3 * pi) < f0 * (3 * pi)" using e by linarith
  then have "180.35 < f0" using pi_gt_zero by simp
  with up show ?thesis by simp
qed

end
